theory Spec2Isabelle
  imports Complex_Main
begin

section \<open>Texts\<close>

text \<open>
  A Python \<open>str\<close> is modelled as a \<open>string\<close>: a list of 8-bit characters, each read
  as the code point of that number (0 to 255). On these code points the whitespace test
  of \<open>str.strip\<close> and of the regular expression class \<open>\s\<close> is the same test, and
  matching under \<open>re.IGNORECASE\<close> against an ASCII pattern is equality up to the case of
  the ASCII letters.
\<close>

definition is_space :: "char \<Rightarrow> bool" where
  "is_space c = ((of_char c :: nat) \<in> {9, 10, 11, 12, 13, 28, 29, 30, 31, 32, 133, 160})"

definition lower_char :: "char \<Rightarrow> char" where
  "lower_char c =
     (let n = (of_char c :: nat) in if 65 \<le> n \<and> n \<le> 90 then char_of (n + 32) else c)"

text \<open>
  \<open>str.upper\<close> on the code points 0 to 255. The letters \<open>a\<close> to \<open>z\<close> (97 to 122) and
  the Latin-1 letters 224 to 254, but for the division sign 247, go 32 down; the sharp s
  (223) becomes \<open>SS\<close>; every other code point stays, with two exceptions. The micro
  sign (181) and the y with diaeresis (255) have their upper-case forms at 924 and 376,
  which no \<open>char\<close> holds: \<open>upper\<close> leaves the two as they are, \<open>upper_in_range\<close>
  says that a text has neither, and what the theorems state about the upper-case form
  of a role they state for such roles only.
\<close>

definition upper_char :: "char \<Rightarrow> string" where
  "upper_char c =
     (let n = (of_char c :: nat) in
      if 97 \<le> n \<and> n \<le> 122 then [char_of (n - 32)]
      else if n = 223 then ''SS''
      else if 224 \<le> n \<and> n \<le> 254 \<and> n \<noteq> 247 then [char_of (n - 32)]
      else [c])"

definition upper :: "string \<Rightarrow> string" where
  "upper s = concat (map upper_char s)"

definition upper_in_range :: "string \<Rightarrow> bool" where
  "upper_in_range s = list_all (\<lambda>c. (of_char c :: nat) \<noteq> 181 \<and> (of_char c :: nat) \<noteq> 255) s"

definition lstrip :: "string \<Rightarrow> string" where
  "lstrip s = dropWhile is_space s"

definition rstrip :: "string \<Rightarrow> string" where
  "rstrip s = rev (dropWhile is_space (rev s))"

definition strip :: "string \<Rightarrow> string" where
  "strip s = rstrip (lstrip s)"

text \<open>
  \<open>match_literal p s\<close> matches the literal pattern \<open>p\<close> at the start of \<open>s\<close> under
  \<open>re.IGNORECASE\<close> and returns the text after the match.
\<close>

fun match_literal :: "string \<Rightarrow> string \<Rightarrow> string option" where
  "match_literal [] s = Some s"
| "match_literal (p # ps) [] = None"
| "match_literal (p # ps) (c # cs) =
     (if lower_char p = lower_char c then match_literal ps cs else None)"

section \<open>Response cleaner\<close>

definition MARKER :: string where
  "MARKER = ''<|im_start|>Assistant###''"

text \<open>
  \<open>re.sub(r'<\|im_start\|>Assistant###\s*', '', text, flags=re.IGNORECASE)\<close>: the
  pattern is not anchored, so the scan removes every match, left to right and without
  overlap: the marker and all the whitespace after it.
\<close>

function sub_marker :: "string \<Rightarrow> string" where
  "sub_marker [] = []"
| "sub_marker (c # cs) =
     (case match_literal MARKER (c # cs) of
        Some rest \<Rightarrow> sub_marker (dropWhile is_space rest)
      | None \<Rightarrow> c # sub_marker cs)"
  by pat_completeness auto
termination
proof (relation "measure length")
  show "wf (measure length)" by simp
next
  fix c :: char and cs rest :: string
  have len: "length s = length p + length r" if "match_literal p s = Some r" for p s r
    using that by (induction p s rule: match_literal.induct) (auto split: if_splits)
  assume "match_literal MARKER (c # cs) = Some rest"
  then have "length (c # cs) = length MARKER + length rest"
    by (rule len)
  moreover have "length (dropWhile is_space rest) \<le> length rest"
    by (rule length_dropWhile_le)
  ultimately show "(dropWhile is_space rest, c # cs) \<in> measure length"
    by (simp add: MARKER_def)
next
  fix c :: char and cs :: string
  show "(cs, c # cs) \<in> measure length" by simp
qed

text \<open>
  \<open>re.sub(r'^(ASSISTANT###|ASSISTANT:|<|im_start|>)+\s*', '', text, flags=re.IGNORECASE)\<close>.
  The bars of the last label are not escaped, so the group has five alternatives:
  \<open>ASSISTANT###\<close>, \<open>ASSISTANT:\<close>, \<open><\<close>, \<open>im_start\<close> and \<open>>\<close>. They are tried
  in this order.
\<close>

definition PREFIX_ALTERNATIVES :: "string list" where
  "PREFIX_ALTERNATIVES = [''ASSISTANT###'', ''ASSISTANT:'', ''<'', ''im_start'', ''>'']"

fun match_alternatives :: "string list \<Rightarrow> string \<Rightarrow> string option" where
  "match_alternatives [] s = None"
| "match_alternatives (p # ps) s =
     (case match_literal p s of Some rest \<Rightarrow> Some rest | None \<Rightarrow> match_alternatives ps s)"

text \<open>
  The loop of the group \<open>(...)+\<close>: it is greedy, and what follows it (\<open>\s*\<close>) matches
  at every position, so the match takes the first alternative that matches, again and
  again, until none does.
\<close>

function skip_alternatives :: "string \<Rightarrow> string" where
  "skip_alternatives s =
     (case match_alternatives PREFIX_ALTERNATIVES s of
        Some rest \<Rightarrow> skip_alternatives rest
      | None \<Rightarrow> s)"
  by pat_completeness auto
termination
proof (relation "measure length")
  show "wf (measure length)" by simp
next
  fix s rest :: string
  have len: "length s = length p + length r" if "match_literal p s = Some r" for p s r
    using that by (induction p s rule: match_literal.induct) (auto split: if_splits)
  have shorter: "length r < length s"
    if "match_alternatives ps s = Some r" and "\<forall>p \<in> set ps. p \<noteq> []" for ps r
    using that
  proof (induction ps)
    case Nil
    then show ?case by simp
  next
    case (Cons p ps)
    show ?case
    proof (cases "match_literal p s")
      case None
      with Cons show ?thesis by simp
    next
      case (Some rest)
      with Cons.prems have "r = rest" and "p \<noteq> []" by simp_all
      with Some show ?thesis by (auto dest: len)
    qed
  qed
  assume "match_alternatives PREFIX_ALTERNATIVES s = Some rest"
  then have "length rest < length s"
    by (rule shorter) (simp add: PREFIX_ALTERNATIVES_def)
  then show "(rest, s) \<in> measure length" by simp
qed

declare skip_alternatives.simps [simp del]

text \<open>
  The pattern starts with \<open>^\<close> and the flags do not hold \<open>re.MULTILINE\<close>: the only
  match is at the start of the text, and it needs one alternative at least.
\<close>

definition sub_prefix :: "string \<Rightarrow> string" where
  "sub_prefix s =
     (case match_alternatives PREFIX_ALTERNATIVES s of
        None \<Rightarrow> s
      | Some rest \<Rightarrow> dropWhile is_space (skip_alternatives rest))"

definition clean_lm_response :: "string \<Rightarrow> string" where
  "clean_lm_response s = sub_prefix (sub_marker (strip s))"

section \<open>Values decoded from JSON\<close>

text \<open>
  The request's \<open>messages\<close> and the upstream reply are whatever the JSON decoder gives:
  \<open>None\<close>, a \<open>bool\<close>, an \<open>int\<close>, a \<open>float\<close>, a \<open>str\<close>, a \<open>list\<close> or a \<open>dict\<close> with
  string keys. A \<open>dict\<close> is an association list in insertion order, read with
  \<open>map_of\<close>.
\<close>

datatype json =
    JNull
  | JBool bool
  | JInt int
  | JFloat real
  | JStr string
  | JList "json list"
  | JObj "(string \<times> json) list"

text \<open>
  The exceptions of the model. \<open>HTTPException\<close> is the one the handlers raise
  themselves, with its status code and detail; the others are raised by the operations
  the handlers use and are caught nowhere.
\<close>

datatype exn =
    HTTPException nat string
  | AttributeError
  | KeyError
  | IndexError
  | TypeError
  | JSONDecodeError
  | ResponseNotRead

text \<open>\<open>d.get(key, default)\<close>: only a \<open>dict\<close> has the method.\<close>

fun py_get :: "json \<Rightarrow> string \<Rightarrow> json \<Rightarrow> exn + json" where
  "py_get (JObj kv) key dflt = Inr (case map_of kv key of Some v \<Rightarrow> v | None \<Rightarrow> dflt)"
| "py_get _ key dflt = Inl AttributeError"

text \<open>
  \<open>d[key]\<close> with a string key: a missing key of a \<open>dict\<close> is a \<open>KeyError\<close>; no other
  value takes a string as an index.
\<close>

fun py_getitem :: "json \<Rightarrow> string \<Rightarrow> exn + json" where
  "py_getitem (JObj kv) key = (case map_of kv key of Some v \<Rightarrow> Inr v | None \<Rightarrow> Inl KeyError)"
| "py_getitem _ key = Inl TypeError"

text \<open>
  \<open>x[0]\<close>: the first item of a \<open>list\<close>, the first character of a \<open>str\<close>; the keys of a
  decoded \<open>dict\<close> are strings, so \<open>0\<close> is none of them.
\<close>

fun py_first :: "json \<Rightarrow> exn + json" where
  "py_first (JList []) = Inl IndexError"
| "py_first (JList (v # vs)) = Inr v"
| "py_first (JStr []) = Inl IndexError"
| "py_first (JStr (c # cs)) = Inr (JStr [c])"
| "py_first (JObj kv) = Inl KeyError"
| "py_first _ = Inl TypeError"

text \<open>
  \<open>for x in v\<close>: the items of a \<open>list\<close>, the characters of a \<open>str\<close>, the keys of a
  \<open>dict\<close>.
\<close>

fun py_iter :: "json \<Rightarrow> exn + json list" where
  "py_iter (JList vs) = Inr vs"
| "py_iter (JStr s) = Inr (map (\<lambda>c. JStr [c]) s)"
| "py_iter (JObj kv) = Inr (map (\<lambda>(k, v). JStr k) kv)"
| "py_iter _ = Inl TypeError"

text \<open>\<open>sep.join(items)\<close>: every item has to be a \<open>str\<close>.\<close>

fun join :: "string \<Rightarrow> string list \<Rightarrow> string" where
  "join sep [] = []"
| "join sep [x] = x"
| "join sep (x # y # ys) = x @ sep @ join sep (y # ys)"

fun str_items :: "json list \<Rightarrow> exn + string list" where
  "str_items [] = Inr []"
| "str_items (JStr s # vs) = (case str_items vs of Inl e \<Rightarrow> Inl e | Inr ss \<Rightarrow> Inr (s # ss))"
| "str_items (_ # vs) = Inl TypeError"

definition py_join :: "string \<Rightarrow> json list \<Rightarrow> exn + string" where
  "py_join sep vs = (case str_items vs of Inl e \<Rightarrow> Inl e | Inr ss \<Rightarrow> Inr (join sep ss))"

text \<open>\<open>role.upper()\<close>: only a \<open>str\<close> has the method.\<close>

fun py_upper :: "json \<Rightarrow> exn + string" where
  "py_upper (JStr s) = Inr (upper s)"
| "py_upper _ = Inl AttributeError"

text \<open>
  A replacement field of an f-string, \<open>{content}\<close>: a \<open>str\<close> is put in as it is; any
  other value through its \<open>str()\<close>, which is the parameter \<open>str_of\<close> (the text Python
  prints for a number, \<open>None\<close> or a \<open>dict\<close> is not modelled).
\<close>

fun py_format :: "(json \<Rightarrow> string) \<Rightarrow> json \<Rightarrow> string" where
  "py_format str_of (JStr s) = s"
| "py_format str_of v = str_of v"

section \<open>Prompt compiler\<close>

text \<open>\<open>[item["text"] for item in content if isinstance(item, dict) and "text" in item]\<close>\<close>

fun fragment_texts :: "json list \<Rightarrow> json list" where
  "fragment_texts [] = []"
| "fragment_texts (JObj kv # items) =
     (case map_of kv ''text'' of
        Some t \<Rightarrow> t # fragment_texts items
      | None \<Rightarrow> fragment_texts items)"
| "fragment_texts (_ # items) = fragment_texts items"

text \<open>
  \<open>if isinstance(content, list): content = "\n".join(...)\<close>; any other content stays as
  it is.
\<close>

fun join_content :: "json \<Rightarrow> exn + json" where
  "join_content (JList items) =
     (case py_join [CHR 10] (fragment_texts items) of
        Inl e \<Rightarrow> Inl e
      | Inr s \<Rightarrow> Inr (JStr s))"
| "join_content content = Inr content"

text \<open>The body of the loop: the line one message adds to the prompt.\<close>

definition message_line :: "(json \<Rightarrow> string) \<Rightarrow> json \<Rightarrow> exn + string" where
  "message_line str_of msg =
     (case py_get msg ''role'' (JStr ''user'') of
        Inl e \<Rightarrow> Inl e
      | Inr role \<Rightarrow>
     (case py_get msg ''content'' (JStr []) of
        Inl e \<Rightarrow> Inl e
      | Inr content \<Rightarrow>
     (case join_content content of
        Inl e \<Rightarrow> Inl e
      | Inr content' \<Rightarrow>
     (case py_upper role of
        Inl e \<Rightarrow> Inl e
      | Inr r \<Rightarrow> Inr (r @ '': '' @ py_format str_of content' @ [CHR 10])))))"

fun compile_loop :: "(json \<Rightarrow> string) \<Rightarrow> string \<Rightarrow> json list \<Rightarrow> exn + string" where
  "compile_loop str_of prompt [] = Inr prompt"
| "compile_loop str_of prompt (msg # msgs) =
     (case message_line str_of msg of
        Inl e \<Rightarrow> Inl e
      | Inr line \<Rightarrow> compile_loop str_of (prompt @ line) msgs)"

definition convert_messages_to_prompt :: "(json \<Rightarrow> string) \<Rightarrow> json list \<Rightarrow> exn + string" where
  "convert_messages_to_prompt str_of messages =
     (case compile_loop str_of [] messages of
        Inl e \<Rightarrow> Inl e
      | Inr prompt \<Rightarrow> Inr (strip prompt))"

section \<open>Requests and the upstream call\<close>

text \<open>
  The request bodies, as validated into \<open>ChatRequest\<close> and \<open>OllamaRequest\<close>, and the
  payload sent upstream. The three have fields of the same names, so the fields are
  written with the name of their record.
\<close>

record ChatRequest =
  model :: string
  messages :: "json list"
  stream :: bool
  temperature :: real
  max_tokens :: int
  tools :: "json list option"

record OllamaRequest =
  model :: string
  prompt :: string
  stream :: bool
  temperature :: real
  max_tokens :: int

record Payload =
  model :: string
  prompt :: string
  temperature :: real
  max_tokens :: int
  stream :: bool

definition MODEL_MAP :: "string \<rightharpoonup> string" where
  "MODEL_MAP = [''qwen2.5'' \<mapsto> ''qwen2.5-coder-32b-instruct-mlx'']"

text \<open>
  What one call of the upstream endpoint comes to. Either no response arrives
  (\<open>NoAnswer\<close>), or a response arrives with a status code and a body that comes in
  chunks; the transfer of the body may fail after some chunks.
  \<open>httpx.TimeoutException\<close> is a subclass of \<open>httpx.RequestError\<close>; \<open>RequestError\<close>
  here stands for the request errors that are no timeout, with their \<open>str(e)\<close>.
\<close>

datatype failure = TimeoutException | RequestError string

datatype answer =
    NoAnswer failure
  | Answer nat "string list" "failure option"

text \<open>
  The world outside the program: the upstream endpoint, called with the client's
  timeout in seconds and the payload; the JSON decoder behind \<open>response.json()\<close>
  (\<open>None\<close>: the body is not JSON); and Python's \<open>str()\<close> of a decoded value.
\<close>

record environment =
  lm_studio :: "nat \<Rightarrow> Payload \<Rightarrow> answer"
  json_loads :: "string \<Rightarrow> json option"
  str_of :: "json \<Rightarrow> string"

text \<open>
  An \<open>httpx.Response\<close>: its status code and its content, which is \<open>None\<close> as long as
  the body has not been read. \<open>response.text\<close> of such a response raises
  \<open>httpx.ResponseNotRead\<close>.
\<close>

record Response =
  status_code :: nat
  content :: "string option"

definition response_text :: "Response \<Rightarrow> exn + string" where
  "response_text r = (case content r of None \<Rightarrow> Inl ResponseNotRead | Some t \<Rightarrow> Inr t)"

text \<open>\<open>response.raise_for_status()\<close> raises \<open>HTTPStatusError\<close> unless the status is 2xx.\<close>

definition is_success :: "nat \<Rightarrow> bool" where
  "is_success code = (200 \<le> code \<and> code \<le> 299)"

text \<open>
  \<open>client.post\<close> reads the whole body before it returns, so a failure of the transfer
  is raised by the call itself.
\<close>

definition client_post :: "environment \<Rightarrow> nat \<Rightarrow> Payload \<Rightarrow> failure + Response" where
  "client_post env timeout payload =
     (case lm_studio env timeout payload of
        NoAnswer f \<Rightarrow> Inl f
      | Answer code chunks (Some f) \<Rightarrow> Inl f
      | Answer code chunks None \<Rightarrow>
          Inr \<lparr>status_code = code, content = Some (concat chunks)\<rparr>)"

text \<open>The decimal digits of a status code, as an f-string prints it.\<close>

function decimal :: "nat \<Rightarrow> string" where
  "decimal n =
     (if n < 10 then [char_of (48 + n)]
      else decimal (n div 10) @ [char_of (48 + n mod 10)])"
  by pat_completeness auto
termination
  by (relation "measure id") auto

declare decimal.simps [simp del]

section \<open>Streaming\<close>

text \<open>
  \<open>stream_chat_response\<close> is a generator. Its value here is the list of the chunks it
  yields, and the exception it ends with, if it ends with one.

  \<open>client.stream\<close> hands the response over before the body is read, and
  \<open>raise_for_status\<close> comes before the first chunk. In the handler of
  \<open>HTTPStatusError\<close> the f-string reads \<open>e.response.text\<close> of that response.
\<close>

definition stream_chat_response :: "environment \<Rightarrow> Payload \<Rightarrow> string list \<times> exn option" where
  "stream_chat_response env request_data =
     (case lm_studio env 120 request_data of
        NoAnswer TimeoutException \<Rightarrow> ([''ERROR: LM Studio request timed out''], None)
      | NoAnswer (RequestError d) \<Rightarrow> ([''ERROR: Request failed: '' @ d], None)
      | Answer code chunks ending \<Rightarrow>
          (let response = \<lparr>status_code = code, content = None\<rparr> in
           if \<not> is_success (status_code response) then
             (case response_text response of
                Inl e \<Rightarrow> ([], Some e)
              | Inr t \<Rightarrow>
                  ([''ERROR: LM Studio returned '' @ decimal (status_code response) @ '': '' @ t],
                   None))
           else
             (case ending of
                None \<Rightarrow> (chunks, None)
              | Some TimeoutException \<Rightarrow>
                  (chunks @ [''ERROR: LM Studio request timed out''], None)
              | Some (RequestError d) \<Rightarrow>
                  (chunks @ [''ERROR: Request failed: '' @ d], None))))"

section \<open>Response legs\<close>

text \<open>
  \<open>clean_lm_response(choice["text"])\<close>: \<open>text.strip()\<close> is a method of \<open>str\<close> only.
\<close>

fun py_clean :: "json \<Rightarrow> exn + json" where
  "py_clean (JStr s) = Inr (JStr (clean_lm_response s))"
| "py_clean _ = Inl AttributeError"

text \<open>One choice of the chat completion; the dict display evaluates its items in order.\<close>

definition openai_choice :: "json \<Rightarrow> exn + json" where
  "openai_choice choice =
     (case py_getitem choice ''index'' of
        Inl e \<Rightarrow> Inl e
      | Inr index \<Rightarrow>
     (case py_getitem choice ''text'' of
        Inl e \<Rightarrow> Inl e
      | Inr t \<Rightarrow>
     (case py_clean t of
        Inl e \<Rightarrow> Inl e
      | Inr cleaned \<Rightarrow>
     (case py_getitem choice ''finish_reason'' of
        Inl e \<Rightarrow> Inl e
      | Inr finish_reason \<Rightarrow>
          Inr (JObj [(''index'', index),
                     (''message'', JObj [(''role'', JStr ''assistant''), (''content'', cleaned)]),
                     (''finish_reason'', finish_reason)])))))"

fun openai_choices :: "json list \<Rightarrow> exn + json list" where
  "openai_choices [] = Inr []"
| "openai_choices (choice # choices) =
     (case openai_choice choice of
        Inl e \<Rightarrow> Inl e
      | Inr c \<Rightarrow>
     (case openai_choices choices of
        Inl e \<Rightarrow> Inl e
      | Inr cs \<Rightarrow> Inr (c # cs)))"

definition openai_response :: "string \<Rightarrow> json \<Rightarrow> exn + json" where
  "openai_response model_name lm_response =
     (case py_getitem lm_response ''id'' of
        Inl e \<Rightarrow> Inl e
      | Inr ident \<Rightarrow>
     (case py_getitem lm_response ''created'' of
        Inl e \<Rightarrow> Inl e
      | Inr created \<Rightarrow>
     (case py_getitem lm_response ''choices'' of
        Inl e \<Rightarrow> Inl e
      | Inr choices \<Rightarrow>
     (case py_iter choices of
        Inl e \<Rightarrow> Inl e
      | Inr items \<Rightarrow>
     (case openai_choices items of
        Inl e \<Rightarrow> Inl e
      | Inr cs \<Rightarrow>
     (case py_getitem lm_response ''usage'' of
        Inl e \<Rightarrow> Inl e
      | Inr usage \<Rightarrow>
          Inr (JObj [(''id'', ident),
                     (''object'', JStr ''chat.completion''),
                     (''created'', created),
                     (''model'', JStr model_name),
                     (''choices'', JList cs),
                     (''usage'', usage)])))))))"

definition ollama_response :: "string \<Rightarrow> json \<Rightarrow> exn + json" where
  "ollama_response model_name lm_response =
     (case py_get lm_response ''created'' (JStr []) of
        Inl e \<Rightarrow> Inl e
      | Inr created \<Rightarrow>
     (case py_get lm_response ''choices'' (JList [JObj []]) of
        Inl e \<Rightarrow> Inl e
      | Inr choices \<Rightarrow>
     (case py_first choices of
        Inl e \<Rightarrow> Inl e
      | Inr choice \<Rightarrow>
     (case py_get choice ''text'' (JStr []) of
        Inl e \<Rightarrow> Inl e
      | Inr t \<Rightarrow>
          Inr (JObj [(''model'', JStr model_name),
                     (''created_at'', created),
                     (''response'', t),
                     (''done'', JBool True)])))))"

section \<open>Request handlers\<close>

text \<open>
  What a handler hands to the framework: a body to send as JSON, or a
  \<open>StreamingResponse\<close> around the generator. A handler that raises is \<open>Inl\<close>.
\<close>

datatype reply =
    Body json
  | StreamingResponse "string list \<times> exn option"

text \<open>
  \<open>MODEL_MAP.get(request.model, request.model)\<close>, and the payload of each handler
  (its local \<open>lm_studio_payload\<close>).
\<close>

definition resolve_model :: "string \<Rightarrow> string" where
  "resolve_model name = (case MODEL_MAP name of Some m \<Rightarrow> m | None \<Rightarrow> name)"

definition chat_payload :: "string \<Rightarrow> string \<Rightarrow> ChatRequest \<Rightarrow> Payload" where
  "chat_payload model_name compiled request =
     \<lparr>model = model_name,
      prompt = compiled,
      temperature = ChatRequest.temperature request,
      max_tokens = ChatRequest.max_tokens request,
      stream = ChatRequest.stream request\<rparr>"

definition ollama_payload :: "string \<Rightarrow> OllamaRequest \<Rightarrow> Payload" where
  "ollama_payload model_name request =
     \<lparr>model = model_name,
      prompt = OllamaRequest.prompt request,
      temperature = OllamaRequest.temperature request,
      max_tokens = OllamaRequest.max_tokens request,
      stream = OllamaRequest.stream request\<rparr>"

definition chat_completions :: "environment \<Rightarrow> ChatRequest \<Rightarrow> exn + reply" where
  "chat_completions env request =
     (let model_name = resolve_model (ChatRequest.model request) in
      case convert_messages_to_prompt (str_of env) (messages request) of
        Inl e \<Rightarrow> Inl e
      | Inr compiled \<Rightarrow>
     (let lm_studio_payload = chat_payload model_name compiled request in
      if ChatRequest.stream request then
        Inr (StreamingResponse (stream_chat_response env lm_studio_payload))
      else
        (case client_post env 120 lm_studio_payload of
           Inl TimeoutException \<Rightarrow> Inl (HTTPException 504 ''LM Studio request timed out'')
         | Inl (RequestError d) \<Rightarrow> Inl (HTTPException 500 (''Request error: '' @ d))
         | Inr response \<Rightarrow>
             if \<not> is_success (status_code response) then
               (case response_text response of
                  Inl e \<Rightarrow> Inl e
                | Inr t \<Rightarrow> Inl (HTTPException (status_code response) (''LM Studio error: '' @ t)))
             else
               (case response_text response of
                  Inl e \<Rightarrow> Inl e
                | Inr t \<Rightarrow>
               (case json_loads env t of
                  None \<Rightarrow> Inl JSONDecodeError
                | Some lm_response \<Rightarrow>
               (case openai_response model_name lm_response of
                  Inl e \<Rightarrow> Inl e
                | Inr r \<Rightarrow> Inr (Body r)))))))"

definition generate_ollama :: "environment \<Rightarrow> OllamaRequest \<Rightarrow> exn + reply" where
  "generate_ollama env request =
     (let model_name = OllamaRequest.model request;
          lm_studio_payload = ollama_payload model_name request in
      if OllamaRequest.stream request then
        Inr (StreamingResponse (stream_chat_response env lm_studio_payload))
      else
        (case client_post env 120 lm_studio_payload of
           Inl TimeoutException \<Rightarrow> Inl (HTTPException 504 ''LM Studio request timed out'')
         | Inl (RequestError d) \<Rightarrow> Inl (HTTPException 500 (''Request error: '' @ d))
         | Inr response \<Rightarrow>
             if \<not> is_success (status_code response) then
               (case response_text response of
                  Inl e \<Rightarrow> Inl e
                | Inr t \<Rightarrow> Inl (HTTPException (status_code response) (''LM Studio error: '' @ t)))
             else
               (case response_text response of
                  Inl e \<Rightarrow> Inl e
                | Inr t \<Rightarrow>
               (case json_loads env t of
                  None \<Rightarrow> Inl JSONDecodeError
                | Some lm_response \<Rightarrow>
               (case ollama_response model_name lm_response of
                  Inl e \<Rightarrow> Inl e
                | Inr r \<Rightarrow> Inr (Body r))))))"

text \<open>
  The status line of the downstream response. The framework answers an
  \<open>HTTPException\<close> with its status code and any other exception of a handler with
  500; a returned body and a streaming response go out under 200.
\<close>

fun downstream_status :: "exn + reply \<Rightarrow> nat" where
  "downstream_status (Inl (HTTPException code detail)) = code"
| "downstream_status (Inl e) = 500"
| "downstream_status (Inr r) = 200"

section \<open>The words of the specification\<close>

text \<open>
  The definitions of this section are not translated from the source: they say, in the
  specification's words, what the theorems below compare the source with.
\<close>

subsection \<open>Response cleaner\<close>

text \<open>The marker occurs somewhere in the text, in any case of its letters.\<close>

fun has_marker :: "string \<Rightarrow> bool" where
  "has_marker [] = False"
| "has_marker (c # cs) = (match_literal MARKER (c # cs) \<noteq> None \<or> has_marker cs)"

text \<open>The labels the second pattern is written for, without the stray alternatives.\<close>

definition LABELS :: "string list" where
  "LABELS = [''ASSISTANT###'', ''ASSISTANT:'']"

text \<open>
  \<open>label_run s rest\<close>: \<open>s\<close> is a run of one or more labels, in any case of their
  letters, followed by \<open>rest\<close>.
\<close>

inductive label_run :: "string \<Rightarrow> string \<Rightarrow> bool" where
  one: "match_alternatives LABELS s = Some rest \<Longrightarrow> label_run s rest"
| more: "match_alternatives LABELS s = Some r \<Longrightarrow> label_run r rest \<Longrightarrow> label_run s rest"

code_pred label_run .

subsection \<open>Prompt compiler\<close>

text \<open>
  The line of a message as the specification words it: the role, \<open>user\<close> when the
  message has none, in upper case; a colon and a space; the content. A string content
  stands as it is, a sequence content is the texts of its fragments that carry one,
  joined by newlines, and any other content stands as Python prints it.
\<close>

fun fragment_text :: "json \<Rightarrow> string option" where
  "fragment_text (JObj kv) = (case map_of kv ''text'' of Some (JStr s) \<Rightarrow> Some s | _ \<Rightarrow> None)"
| "fragment_text _ = None"

fun content_text :: "(json \<Rightarrow> string) \<Rightarrow> json \<Rightarrow> string" where
  "content_text fmt (JStr s) = s"
| "content_text fmt (JList items) = join [CHR 10] (List.map_filter fragment_text items)"
| "content_text fmt v = fmt v"

fun message_role :: "json \<Rightarrow> string" where
  "message_role (JObj kv) = (case map_of kv ''role'' of Some (JStr r) \<Rightarrow> r | _ \<Rightarrow> ''user'')"
| "message_role _ = ''user''"

fun message_content :: "json \<Rightarrow> json" where
  "message_content (JObj kv) = (case map_of kv ''content'' of Some c \<Rightarrow> c | None \<Rightarrow> JStr [])"
| "message_content _ = JStr []"

definition prompt_line :: "(json \<Rightarrow> string) \<Rightarrow> json \<Rightarrow> string" where
  "prompt_line fmt msg =
     upper (message_role msg) @ '': '' @ content_text fmt (message_content msg)"

definition compiled_prompt :: "(json \<Rightarrow> string) \<Rightarrow> json list \<Rightarrow> string" where
  "compiled_prompt fmt msgs = strip (join [CHR 10] (map (prompt_line fmt) msgs))"

text \<open>
  The messages the compiler accepts: objects whose role, when there is one, is a string,
  and whose fragments, when the content is a sequence, carry no text that is not a
  string.
\<close>

fun text_is_str :: "json \<Rightarrow> bool" where
  "text_is_str (JObj kv) = (case map_of kv ''text'' of Some (JStr s) \<Rightarrow> True | Some _ \<Rightarrow> False | None \<Rightarrow> True)"
| "text_is_str _ = True"

fun content_ok :: "json \<Rightarrow> bool" where
  "content_ok (JList items) = list_all text_is_str items"
| "content_ok _ = True"

fun role_ok :: "json \<Rightarrow> bool" where
  "role_ok (JStr r) = True"
| "role_ok _ = False"

fun well_formed :: "json \<Rightarrow> bool" where
  "well_formed (JObj kv) =
     ((case map_of kv ''role'' of Some r \<Rightarrow> role_ok r | None \<Rightarrow> True)
      \<and> (case map_of kv ''content'' of Some c \<Rightarrow> content_ok c | None \<Rightarrow> True))"
| "well_formed _ = False"

subsection \<open>Chat reply\<close>

text \<open>
  The required fields, in the words of the claim: a reply object lacks a required field
  when it has no \<open>id\<close>, \<open>created\<close>, \<open>choices\<close> or \<open>usage\<close>, or when one of the
  objects in its list of choices has no \<open>index\<close>, \<open>text\<close> or \<open>finish_reason\<close>.
\<close>

fun choice_lacks_field :: "json \<Rightarrow> bool" where
  "choice_lacks_field (JObj kv) =
     (map_of kv ''index'' = None \<or> map_of kv ''text'' = None
      \<or> map_of kv ''finish_reason'' = None)"
| "choice_lacks_field _ = False"

fun reply_lacks_field :: "json \<Rightarrow> bool" where
  "reply_lacks_field (JObj kv) =
     (map_of kv ''id'' = None \<or> map_of kv ''created'' = None
      \<or> map_of kv ''choices'' = None \<or> map_of kv ''usage'' = None
      \<or> (case map_of kv ''choices'' of
            Some (JList items) \<Rightarrow> list_ex choice_lacks_field items
          | _ \<Rightarrow> False))"
| "reply_lacks_field _ = False"

text \<open>The exceptions a handler raises on purpose.\<close>

fun is_http_exception :: "exn \<Rightarrow> bool" where
  "is_http_exception (HTTPException code detail) = True"
| "is_http_exception _ = False"

section \<open>The model alias table\<close>







section \<open>Upstream failures\<close>

lemma client_post_Answer:
  "lm_studio env t p = Answer code chunks None \<Longrightarrow>
   client_post env t p = Inr \<lparr>status_code = code, content = Some (concat chunks)\<rparr>"
  by (simp add: client_post_def)

text \<open>
  Claim C6. A request that does not stream, on either route (on the chat route: one
  whose messages compile, so that the upstream call is made). When the upstream answers
  with a status that is not 2xx, the handler raises an \<open>HTTPException\<close> with that
  status code and a detail that holds the text of the upstream body. When the call
  runs into the timeout of the client, which is 120 seconds, the handler raises an
  \<open>HTTPException\<close> with 504. When the call fails with any other request error, the
  handler raises an \<open>HTTPException\<close> with 500 and a detail that holds the description
  of the failure. The status of an \<open>HTTPException\<close> is the status the caller gets.
\<close>

theorem upstream_failures_map_to_errors:
  "(\<not> ChatRequest.stream creq
      \<and> convert_messages_to_prompt (str_of env) (messages creq) = Inr compiled \<longrightarrow>
      (\<forall>code chunks.
         lm_studio env 120 (chat_payload (resolve_model (ChatRequest.model creq)) compiled creq)
           = Answer code chunks None \<and> \<not> is_success code \<longrightarrow>
         chat_completions env creq
           = Inl (HTTPException code (''LM Studio error: '' @ concat chunks)))
    \<and> (client_post env 120 (chat_payload (resolve_model (ChatRequest.model creq)) compiled creq)
           = Inl TimeoutException \<longrightarrow>
         chat_completions env creq = Inl (HTTPException 504 ''LM Studio request timed out''))
    \<and> (\<forall>d.
         client_post env 120 (chat_payload (resolve_model (ChatRequest.model creq)) compiled creq)
           = Inl (RequestError d) \<longrightarrow>
         chat_completions env creq = Inl (HTTPException 500 (''Request error: '' @ d))))
   \<and> (\<not> OllamaRequest.stream oreq \<longrightarrow>
      (\<forall>code chunks.
         lm_studio env 120 (ollama_payload (OllamaRequest.model oreq) oreq)
           = Answer code chunks None \<and> \<not> is_success code \<longrightarrow>
         generate_ollama env oreq
           = Inl (HTTPException code (''LM Studio error: '' @ concat chunks)))
    \<and> (client_post env 120 (ollama_payload (OllamaRequest.model oreq) oreq)
           = Inl TimeoutException \<longrightarrow>
         generate_ollama env oreq = Inl (HTTPException 504 ''LM Studio request timed out''))
    \<and> (\<forall>d.
         client_post env 120 (ollama_payload (OllamaRequest.model oreq) oreq)
           = Inl (RequestError d) \<longrightarrow>
         generate_ollama env oreq = Inl (HTTPException 500 (''Request error: '' @ d))))
   \<and> (\<forall>code detail. downstream_status (Inl (HTTPException code detail)) = code)"
  by (auto simp: chat_completions_def generate_ollama_def Let_def response_text_def
      dest!: client_post_Answer)

text \<open>
  The theorem at work: an upstream that answers 503 on the chat route, and an upstream
  that runs into the timeout on the simple-completion route.
\<close>

theorem upstream_failures_map_to_errors_witness:
  "chat_completions
     \<lparr>lm_studio = (\<lambda>t p. if t = 120 then Answer 503 [''over'', ''loaded''] None
                          else NoAnswer TimeoutException),
      json_loads = (\<lambda>s. None), str_of = (\<lambda>v. [])\<rparr>
     \<lparr>ChatRequest.model = ''qwen2.5'',
      messages = [JObj [(''role'', JStr ''user''), (''content'', JStr ''hi'')]],
      stream = False, temperature = 0.7, max_tokens = 512, tools = None\<rparr>
   = Inl (HTTPException 503 ''LM Studio error: overloaded'')
   \<and> generate_ollama
     \<lparr>lm_studio = (\<lambda>t p. if t = 120 then NoAnswer TimeoutException
                          else Answer 200 [] None),
      json_loads = (\<lambda>s. None), str_of = (\<lambda>v. [])\<rparr>
     \<lparr>OllamaRequest.model = ''qwen2.5'', prompt = ''hi'',
      stream = False, temperature = 0.7, max_tokens = 512\<rparr>
   = Inl (HTTPException 504 ''LM Studio request timed out'')
   \<and> generate_ollama
     \<lparr>lm_studio = (\<lambda>t p. NoAnswer (RequestError ''connection refused'')),
      json_loads = (\<lambda>s. None), str_of = (\<lambda>v. [])\<rparr>
     \<lparr>OllamaRequest.model = ''qwen2.5'', prompt = ''hi'',
      stream = False, temperature = 0.7, max_tokens = 512\<rparr>
   = Inl (HTTPException 500 ''Request error: connection refused'')"
proof -
  let ?renv = "\<lparr>lm_studio = (\<lambda>t p. NoAnswer (RequestError ''connection refused'')),
      json_loads = (\<lambda>s. None), str_of = (\<lambda>v. [])\<rparr>"
  let ?env = "\<lparr>lm_studio = (\<lambda>t p. if t = 120 then Answer 503 [''over'', ''loaded''] None
                          else NoAnswer TimeoutException),
      json_loads = (\<lambda>s. None), str_of = (\<lambda>v. [])\<rparr>"
  let ?req = "\<lparr>ChatRequest.model = ''qwen2.5'',
      messages = [JObj [(''role'', JStr ''user''), (''content'', JStr ''hi'')]],
      stream = False, temperature = 0.7, max_tokens = 512, tools = None\<rparr>"
  let ?oenv = "\<lparr>lm_studio = (\<lambda>t p. if t = 120 then NoAnswer TimeoutException
                          else Answer 200 [] None),
      json_loads = (\<lambda>s. None), str_of = (\<lambda>v. [])\<rparr>"
  let ?oreq = "\<lparr>OllamaRequest.model = ''qwen2.5'', prompt = ''hi'',
      stream = False, temperature = 0.7, max_tokens = 512\<rparr>"
  have h1: "\<not> ChatRequest.stream ?req" by simp
  have h2: "convert_messages_to_prompt (str_of ?env) (messages ?req) = Inr ''USER: hi''"
    by code_simp
  have h3: "lm_studio ?env 120 (chat_payload (resolve_model (ChatRequest.model ?req)) ''USER: hi'' ?req)
      = Answer 503 [''over'', ''loaded''] None"
    by simp
  have h4: "\<not> is_success 503" by (simp add: is_success_def)
  have h5: "\<not> OllamaRequest.stream ?oreq" by simp
  have h6: "client_post ?oenv 120 (ollama_payload (OllamaRequest.model ?oreq) ?oreq)
      = Inl TimeoutException"
    by (simp add: client_post_def)
  from upstream_failures_map_to_errors [of ?req ?env "''USER: hi''" ?oreq] h1 h2 h3 h4
  have 1: "chat_completions ?env ?req
      = Inl (HTTPException 503 (''LM Studio error: '' @ concat [''over'', ''loaded'']))"
    by blast
  from upstream_failures_map_to_errors [of ?req ?oenv "''USER: hi''" ?oreq] h5 h6
  have 2: "generate_ollama ?oenv ?oreq = Inl (HTTPException 504 ''LM Studio request timed out'')"
    by blast
  have h7: "client_post ?renv 120 (ollama_payload (OllamaRequest.model ?oreq) ?oreq)
      = Inl (RequestError ''connection refused'')"
    by (simp add: client_post_def)
  from upstream_failures_map_to_errors [of ?req ?renv "''USER: hi''" ?oreq] h5 h7
  have "generate_ollama ?renv ?oreq
      = Inl (HTTPException 500 (''Request error: '' @ ''connection refused''))"
    by blast
  then have 3: "generate_ollama ?renv ?oreq
      = Inl (HTTPException 500 ''Request error: connection refused'')"
    by simp
  from 1 have s1: "chat_completions ?env ?req = Inl (HTTPException 503 ''LM Studio error: overloaded'')"
    by simp
  from s1 2 3 show ?thesis by blast
qed

section \<open>The chat reply\<close>

lemma openai_choice_complete:
  "openai_choice c = Inr x \<Longrightarrow> \<not> choice_lacks_field c"
  by (cases c) (auto simp: openai_choice_def split: sum.splits option.splits)

lemma openai_choices_complete:
  "openai_choices items = Inr cs \<Longrightarrow> \<not> list_ex choice_lacks_field items"
  by (induction items arbitrary: cs)
     (auto split: sum.splits dest: openai_choice_complete)

lemma openai_response_complete:
  "openai_response m lm = Inr r \<Longrightarrow> \<not> reply_lacks_field lm"
proof (cases lm)
  case (JObj kv)
  assume ok: "openai_response m lm = Inr r"
  then obtain choices items cs where
    1: "map_of kv ''id'' \<noteq> None" "map_of kv ''created'' \<noteq> None"
       "map_of kv ''usage'' \<noteq> None" "map_of kv ''choices'' = Some choices"
    and 2: "py_iter choices = Inr items" and 3: "openai_choices items = Inr cs"
    using JObj by (auto simp: openai_response_def split: sum.splits option.splits)
  from 2 3 have "\<not> (case choices of JList items \<Rightarrow> list_ex choice_lacks_field items | _ \<Rightarrow> False)"
    by (cases choices) (auto dest: openai_choices_complete)
  with 1 JObj show ?thesis by simp
qed simp_all

lemma openai_choice_error:
  "openai_choice c = Inl e \<Longrightarrow> \<not> is_http_exception e"
  by (auto simp: openai_choice_def split: sum.splits
      elim!: py_getitem.elims py_clean.elims split: option.splits)

lemma openai_choices_error:
  "openai_choices items = Inl e \<Longrightarrow> \<not> is_http_exception e"
  by (induction items) (auto split: sum.splits dest: openai_choice_error)

lemma openai_response_error:
  "openai_response m lm = Inl e \<Longrightarrow> \<not> is_http_exception e"
  by (auto simp: openai_response_def split: sum.splits
      dest: openai_choices_error elim!: py_getitem.elims py_iter.elims split: option.splits)

lemma downstream_status_unhandled:
  "\<not> is_http_exception e \<Longrightarrow> downstream_status (Inl e) = 500"
  by (cases e) simp_all

text \<open>
  Claim C7. The response leg of the chat route has no defaults. If the upstream reply
  lacks \<open>id\<close>, \<open>created\<close>, \<open>choices\<close> or \<open>usage\<close>, or one of its choices lacks
  \<open>index\<close>, \<open>text\<close> or \<open>finish_reason\<close>, the leg raises an exception and builds no
  response; the handler raises it on, the exception is none of the handler's own
  \<open>HTTPException\<close>s, and the caller gets a 500.
\<close>

theorem chat_reply_has_no_defaults:
  "(reply_lacks_field lm_response \<longrightarrow>
      (\<exists>e. openai_response model_name lm_response = Inl e \<and> \<not> is_http_exception e))
   \<and> (\<not> ChatRequest.stream creq
       \<and> convert_messages_to_prompt (str_of env) (messages creq) = Inr compiled
       \<and> lm_studio env 120 (chat_payload (resolve_model (ChatRequest.model creq)) compiled creq)
           = Answer code chunks None
       \<and> is_success code
       \<and> json_loads env (concat chunks) = Some lm_response
       \<and> reply_lacks_field lm_response \<longrightarrow>
      (\<exists>e. chat_completions env creq = Inl e \<and> \<not> is_http_exception e)
      \<and> downstream_status (chat_completions env creq) = 500)"
proof (intro conjI impI)
  assume "reply_lacks_field lm_response"
  then show "\<exists>e. openai_response model_name lm_response = Inl e \<and> \<not> is_http_exception e"
    by (cases "openai_response model_name lm_response")
       (auto dest: openai_response_complete openai_response_error)
next
  assume a: "\<not> ChatRequest.stream creq
       \<and> convert_messages_to_prompt (str_of env) (messages creq) = Inr compiled
       \<and> lm_studio env 120 (chat_payload (resolve_model (ChatRequest.model creq)) compiled creq)
           = Answer code chunks None
       \<and> is_success code
       \<and> json_loads env (concat chunks) = Some lm_response
       \<and> reply_lacks_field lm_response"
  then obtain e where e: "openai_response (resolve_model (ChatRequest.model creq)) lm_response = Inl e"
    "\<not> is_http_exception e"
    by (cases "openai_response (resolve_model (ChatRequest.model creq)) lm_response")
       (auto dest: openai_response_complete openai_response_error)
  with a have run: "chat_completions env creq = Inl e"
    by (simp add: chat_completions_def Let_def client_post_def response_text_def)
  with e show "\<exists>e. chat_completions env creq = Inl e \<and> \<not> is_http_exception e"
    by blast
  from run e show "downstream_status (chat_completions env creq) = 500"
    by (simp add: downstream_status_unhandled)
qed

text \<open>
  The theorem at work: a reply without \<open>usage\<close>.
\<close>

theorem chat_reply_has_no_defaults_witness:
  "chat_completions
     \<lparr>lm_studio = (\<lambda>t p. Answer 200 [''{}''] None),
      json_loads = (\<lambda>s. Some (JObj [(''id'', JStr ''x''), (''created'', JInt 1),
                                      (''choices'', JList [])])),
      str_of = (\<lambda>v. [])\<rparr>
     \<lparr>ChatRequest.model = ''qwen2.5'',
      messages = [JObj [(''role'', JStr ''user''), (''content'', JStr ''hi'')]],
      stream = False, temperature = 0.7, max_tokens = 512, tools = None\<rparr>
   = Inl KeyError
   \<and> downstream_status (chat_completions
     \<lparr>lm_studio = (\<lambda>t p. Answer 200 [''{}''] None),
      json_loads = (\<lambda>s. Some (JObj [(''id'', JStr ''x''), (''created'', JInt 1),
                                      (''choices'', JList [])])),
      str_of = (\<lambda>v. [])\<rparr>
     \<lparr>ChatRequest.model = ''qwen2.5'',
      messages = [JObj [(''role'', JStr ''user''), (''content'', JStr ''hi'')]],
      stream = False, temperature = 0.7, max_tokens = 512, tools = None\<rparr>) = 500"
proof -
  let ?lm = "JObj [(''id'', JStr ''x''), (''created'', JInt 1), (''choices'', JList [])]"
  let ?env = "\<lparr>lm_studio = (\<lambda>t p. Answer 200 [''{}''] None),
      json_loads = (\<lambda>s. Some ?lm), str_of = (\<lambda>v. [])\<rparr>"
  let ?req = "\<lparr>ChatRequest.model = ''qwen2.5'',
      messages = [JObj [(''role'', JStr ''user''), (''content'', JStr ''hi'')]],
      stream = False, temperature = 0.7, max_tokens = 512, tools = None\<rparr>"
  have h: "\<not> ChatRequest.stream ?req
       \<and> convert_messages_to_prompt (str_of ?env) (messages ?req) = Inr ''USER: hi''
       \<and> lm_studio ?env 120 (chat_payload (resolve_model (ChatRequest.model ?req)) ''USER: hi'' ?req)
           = Answer 200 [''{}''] None
       \<and> is_success 200
       \<and> json_loads ?env (concat [''{}'']) = Some ?lm
       \<and> reply_lacks_field ?lm"
    by code_simp
  have run: "chat_completions ?env ?req = Inl KeyError"
    by code_simp
  from chat_reply_has_no_defaults [of ?lm _ ?req ?env "''USER: hi''" 200 "[''{}'']"] h
  have "downstream_status (chat_completions ?env ?req) = 500"
    by blast
  with run show ?thesis by simp
qed

section \<open>The simple-completion reply\<close>

text \<open>
  Claim C10. On the simple-completion route, a request that does not stream returns the
  text of the first upstream choice as it is: whatever the value \<open>t\<close> of that field,
  the \<open>response\<close> field of the body is \<open>t\<close>. The response cleaner has no part in it.
\<close>

theorem generate_returns_text_verbatim:
  "\<not> OllamaRequest.stream oreq
   \<and> lm_studio env 120 (ollama_payload (OllamaRequest.model oreq) oreq) = Answer code chunks None
   \<and> is_success code
   \<and> json_loads env (concat chunks) = Some (JObj kv)
   \<and> map_of kv ''choices'' = Some (JList (JObj ckv # others))
   \<and> map_of ckv ''text'' = Some t \<longrightarrow>
   generate_ollama env oreq
     = Inr (Body (JObj [(''model'', JStr (OllamaRequest.model oreq)),
                        (''created_at'', (case map_of kv ''created'' of Some c \<Rightarrow> c | None \<Rightarrow> JStr [])),
                        (''response'', t),
                        (''done'', JBool True)]))"
  by (simp add: generate_ollama_def Let_def client_post_def response_text_def
      ollama_response_def)

text \<open>
  The theorem at work: a text with the marker in front comes back with the marker,
  though the cleaner would take it off.
\<close>

theorem generate_returns_text_verbatim_witness:
  "generate_ollama
     \<lparr>lm_studio = (\<lambda>t p. Answer 200 [''{}''] None),
      json_loads = (\<lambda>s. Some (JObj [(''choices'',
         JList [JObj [(''text'', JStr ''<|im_start|>Assistant### Hello'')]])])),
      str_of = (\<lambda>v. [])\<rparr>
     \<lparr>OllamaRequest.model = ''qwen2.5'', prompt = ''hi'',
      stream = False, temperature = 0.7, max_tokens = 512\<rparr>
   = Inr (Body (JObj [(''model'', JStr ''qwen2.5''),
                      (''created_at'', JStr []),
                      (''response'', JStr ''<|im_start|>Assistant### Hello''),
                      (''done'', JBool True)]))
   \<and> clean_lm_response ''<|im_start|>Assistant### Hello'' = ''Hello''"
proof -
  let ?ckv = "[(''text'', JStr ''<|im_start|>Assistant### Hello'')]"
  let ?kv = "[(''choices'', JList [JObj ?ckv])]"
  let ?env = "\<lparr>lm_studio = (\<lambda>t p. Answer 200 [''{}''] None),
      json_loads = (\<lambda>s. Some (JObj ?kv)), str_of = (\<lambda>v. [])\<rparr>"
  let ?req = "\<lparr>OllamaRequest.model = ''qwen2.5'', prompt = ''hi'',
      stream = False, temperature = 0.7, max_tokens = 512\<rparr>"
  have h: "\<not> OllamaRequest.stream ?req
   \<and> lm_studio ?env 120 (ollama_payload (OllamaRequest.model ?req) ?req) = Answer 200 [''{}''] None
   \<and> is_success 200
   \<and> json_loads ?env (concat [''{}'']) = Some (JObj ?kv)
   \<and> map_of ?kv ''choices'' = Some (JList (JObj ?ckv # []))
   \<and> map_of ?ckv ''text'' = Some (JStr ''<|im_start|>Assistant### Hello'')"
    by (simp add: is_success_def)
  have c: "clean_lm_response ''<|im_start|>Assistant### Hello'' = ''Hello''"
    by code_simp
  from generate_returns_text_verbatim
    [of ?req ?env 200 "[''{}'']" ?kv ?ckv "[]" "JStr ''<|im_start|>Assistant### Hello''"] h
  have "generate_ollama ?env ?req
     = Inr (Body (JObj [(''model'', JStr (OllamaRequest.model ?req)),
                        (''created_at'', (case map_of ?kv ''created'' of Some c \<Rightarrow> c | None \<Rightarrow> JStr [])),
                        (''response'', JStr ''<|im_start|>Assistant### Hello''),
                        (''done'', JBool True)]))"
    by blast
  with c show ?thesis by simp
qed

text \<open>
  The defaults of the simple-completion leg: a reply object without \<open>choices\<close> gives
  the empty string as the response, a first choice without \<open>text\<close> does too, and a
  reply without \<open>created\<close> gives the empty string as \<open>created_at\<close>.
\<close>

theorem ollama_response_defaults:
  "(map_of kv ''choices'' = None \<longrightarrow>
      ollama_response model_name (JObj kv)
        = Inr (JObj [(''model'', JStr model_name),
                     (''created_at'', (case map_of kv ''created'' of Some c \<Rightarrow> c | None \<Rightarrow> JStr [])),
                     (''response'', JStr []),
                     (''done'', JBool True)]))
   \<and> (map_of kv ''choices'' = Some (JList (JObj ckv # others)) \<longrightarrow>
      ollama_response model_name (JObj kv)
        = Inr (JObj [(''model'', JStr model_name),
                     (''created_at'', (case map_of kv ''created'' of Some c \<Rightarrow> c | None \<Rightarrow> JStr [])),
                     (''response'', (case map_of ckv ''text'' of Some t \<Rightarrow> t | None \<Rightarrow> JStr [])),
                     (''done'', JBool True)]))"
  by (simp add: ollama_response_def)

text \<open>
  The defaults at work: an empty reply object, and a first choice without a text.
\<close>

theorem ollama_response_defaults_witness:
  "ollama_response ''qwen2.5'' (JObj [])
     = Inr (JObj [(''model'', JStr ''qwen2.5''), (''created_at'', JStr []),
                  (''response'', JStr []), (''done'', JBool True)])
   \<and> ollama_response ''qwen2.5'' (JObj [(''created'', JInt 7), (''choices'', JList [JObj []])])
     = Inr (JObj [(''model'', JStr ''qwen2.5''), (''created_at'', JInt 7),
                  (''response'', JStr []), (''done'', JBool True)])"
proof -
  have 1: "map_of ([] :: (string \<times> json) list) ''choices'' = None" by simp
  have 2: "map_of [(''created'', JInt 7), (''choices'', JList [JObj []])] ''choices''
      = Some (JList (JObj [] # []))" by simp
  from ollama_response_defaults [of "[]" "''qwen2.5''" "[]" "[]"] 1
  have a: "ollama_response ''qwen2.5'' (JObj [])
        = Inr (JObj [(''model'', JStr ''qwen2.5''),
                     (''created_at'', (case map_of ([] :: (string \<times> json) list) ''created'' of Some c \<Rightarrow> c | None \<Rightarrow> JStr [])),
                     (''response'', JStr []),
                     (''done'', JBool True)])"
    by blast
  from ollama_response_defaults
    [of "[(''created'', JInt 7), (''choices'', JList [JObj []])]" "''qwen2.5''" "[]" "[]"] 2
  have b: "ollama_response ''qwen2.5'' (JObj [(''created'', JInt 7), (''choices'', JList [JObj []])])
        = Inr (JObj [(''model'', JStr ''qwen2.5''),
                     (''created_at'', (case map_of [(''created'', JInt 7), (''choices'', JList [JObj []])] ''created'' of Some c \<Rightarrow> c | None \<Rightarrow> JStr [])),
                     (''response'', (case map_of ([] :: (string \<times> json) list) ''text'' of Some t \<Rightarrow> t | None \<Rightarrow> JStr [])),
                     (''done'', JBool True)])"
    by blast
  from a b show ?thesis by simp
qed

text \<open>
  Claim C2. The claim says that no shape of the upstream reply makes the response leg of
  the simple-completion route fail, a present but empty list of choices included. The
  default \<open>[{}]\<close> of \<open>get\<close> stands in for a missing \<open>choices\<close> only: on a reply with
  \<open>"choices": []\<close> the item \<open>[0]\<close> raises \<open>IndexError\<close>, the handler raises it on and
  the caller gets a 500.
\<close>

theorem empty_choices_fails:
  "ollama_response model_name (JObj [(''created'', JInt 1), (''choices'', JList [])])
     = Inl IndexError
   \<and> generate_ollama
     \<lparr>lm_studio = (\<lambda>t p. Answer 200 [''{}''] None),
      json_loads = (\<lambda>s. Some (JObj [(''created'', JInt 1), (''choices'', JList [])])),
      str_of = (\<lambda>v. [])\<rparr>
     \<lparr>OllamaRequest.model = ''qwen2.5'', prompt = ''hi'',
      stream = False, temperature = 0.7, max_tokens = 512\<rparr>
     = Inl IndexError
   \<and> downstream_status (Inl IndexError) = 500"
  by (simp add: ollama_response_def generate_ollama_def client_post_def is_success_def
      response_text_def ollama_payload_def)

section \<open>Streaming failures\<close>

text \<open>
  A streamed response with a 2xx status: the generator yields the upstream chunks as
  they are and in their order; when the transfer fails after some chunks, with a
  timeout or another request error, it yields one more chunk, \<open>ERROR:\<close> and a
  description, and ends without an exception.
\<close>

theorem stream_relays_chunks:
  "lm_studio env 120 payload = Answer code chunks ending \<and> is_success code \<longrightarrow>
   stream_chat_response env payload =
     (case ending of
        None \<Rightarrow> (chunks, None)
      | Some TimeoutException \<Rightarrow> (chunks @ [''ERROR: LM Studio request timed out''], None)
      | Some (RequestError d) \<Rightarrow> (chunks @ [''ERROR: Request failed: '' @ d], None))"
  by (simp add: stream_chat_response_def split: option.splits failure.splits)

text \<open>
  Two chunks and then a failure of the transfer: the two chunks and one \<open>ERROR:\<close>
  chunk.
\<close>

theorem stream_relays_chunks_witness:
  "stream_chat_response
     \<lparr>lm_studio = (\<lambda>t p. Answer 200 [''one'', ''two''] (Some (RequestError ''peer closed''))),
      json_loads = (\<lambda>s. None), str_of = (\<lambda>v. [])\<rparr>
     \<lparr>model = ''qwen2.5'', prompt = ''hi'', temperature = 0.7, max_tokens = 512,
      stream = True\<rparr>
   = ([''one'', ''two'', ''ERROR: Request failed: peer closed''], None)"
proof -
  let ?env = "\<lparr>lm_studio = (\<lambda>t p. Answer 200 [''one'', ''two''] (Some (RequestError ''peer closed''))),
      json_loads = (\<lambda>s. None), str_of = (\<lambda>v. [])\<rparr>"
  let ?p = "\<lparr>model = ''qwen2.5'', prompt = ''hi'', temperature = 0.7, max_tokens = 512,
      stream = True\<rparr>"
  have "lm_studio ?env 120 ?p = Answer 200 [''one'', ''two''] (Some (RequestError ''peer closed''))
      \<and> is_success 200"
    by (simp add: is_success_def)
  with stream_relays_chunks [of ?env ?p 200 "[''one'', ''two'']" "Some (RequestError ''peer closed'')"]
  show ?thesis by simp
qed

text \<open>
  Claim C5. The claim says that a streaming call ends every failure, a status error
  included, with one \<open>ERROR:\<close> chunk and never raises. On an upstream status that is
  not 2xx the handler of \<open>HTTPStatusError\<close> builds its chunk from
  \<open>e.response.text\<close>; the body of a streamed response has not been read at this point,
  so the attribute raises \<open>ResponseNotRead\<close>: the generator yields no chunk and ends
  with this exception.
\<close>

theorem stream_status_error_raises:
  "stream_chat_response
     \<lparr>lm_studio = (\<lambda>t p. Answer 503 [''overloaded''] None),
      json_loads = (\<lambda>s. None), str_of = (\<lambda>v. [])\<rparr>
     \<lparr>model = ''qwen2.5'', prompt = ''hi'', temperature = 0.7, max_tokens = 512,
      stream = True\<rparr>
   = ([], Some ResponseNotRead)"
  by (simp add: stream_chat_response_def is_success_def response_text_def)

section \<open>The prompt compiler\<close>

lemma str_items_fragment_texts:
  "list_all text_is_str items \<Longrightarrow>
   str_items (fragment_texts items) = Inr (List.map_filter fragment_text items)"
proof (induction items)
  case Nil
  then show ?case by (simp add: List.map_filter_simps)
next
  case (Cons a items)
  then show ?case
    by (cases a) (auto simp: List.map_filter_simps split: option.splits json.splits)
qed

lemma str_items_fragment_texts_fail:
  "\<not> list_all text_is_str items \<Longrightarrow> str_items (fragment_texts items) = Inl TypeError"
proof (induction items)
  case Nil
  then show ?case by simp
next
  case (Cons a items)
  then show ?case
    by (cases a) (auto split: option.splits json.splits sum.splits)
qed

lemma join_content_ok:
  "content_ok c \<Longrightarrow> \<exists>c'. join_content c = Inr c' \<and> py_format f c' = content_text f c"
  by (cases c) (auto simp: py_join_def str_items_fragment_texts)

lemma join_content_fail:
  "\<not> content_ok c \<Longrightarrow> join_content c = Inl TypeError"
  by (cases c) (auto simp: py_join_def str_items_fragment_texts_fail)

lemma message_line_ok:
  assumes "well_formed msg"
  shows "message_line f msg = Inr (prompt_line f msg @ [CHR 10])"
proof (cases msg)
  case (JObj kv)
  with assms have r: "role_ok (case map_of kv ''role'' of Some r \<Rightarrow> r | None \<Rightarrow> JStr ''user'')"
    and c: "content_ok (message_content msg)"
    by (auto split: option.splits)
  from r obtain s where s: "(case map_of kv ''role'' of Some r \<Rightarrow> r | None \<Rightarrow> JStr ''user'') = JStr s"
    by (cases "(case map_of kv ''role'' of Some r \<Rightarrow> r | None \<Rightarrow> JStr ''user'')") auto
  then have role: "message_role msg = s"
    using JObj by (auto split: option.splits)
  from join_content_ok [OF c, of f] obtain c' where
    c': "join_content (message_content msg) = Inr c'"
        "py_format f c' = content_text f (message_content msg)"
    by blast
  with s role JObj show ?thesis
    by (simp add: message_line_def prompt_line_def)
qed (use assms in simp_all)

lemma message_line_fail:
  assumes "\<not> well_formed msg"
  shows "\<exists>e. message_line f msg = Inl e"
proof (cases msg)
  case (JObj kv)
  show ?thesis
  proof (cases "content_ok (message_content msg)")
    case False
    then show ?thesis
      using JObj by (simp add: message_line_def join_content_fail)
  next
    case True
    with assms JObj
    have "\<not> role_ok (case map_of kv ''role'' of Some r \<Rightarrow> r | None \<Rightarrow> JStr ''user'')"
      by (auto split: option.splits)
    then have "py_upper (case map_of kv ''role'' of Some r \<Rightarrow> r | None \<Rightarrow> JStr ''user'') = Inl AttributeError"
      by (cases "(case map_of kv ''role'' of Some r \<Rightarrow> r | None \<Rightarrow> JStr ''user'')") auto
    then show ?thesis
      using JObj by (auto simp: message_line_def split: sum.splits)
  qed
qed (simp_all add: message_line_def)

lemma compile_loop_ok:
  "list_all well_formed msgs \<Longrightarrow>
   compile_loop f acc msgs = Inr (acc @ concat (map (\<lambda>m. prompt_line f m @ [CHR 10]) msgs))"
  by (induction msgs arbitrary: acc) (auto simp: message_line_ok)

lemma compile_loop_fail:
  "\<not> list_all well_formed msgs \<Longrightarrow> \<exists>e. compile_loop f acc msgs = Inl e"
proof (induction msgs arbitrary: acc)
  case Nil
  then show ?case by simp
next
  case (Cons m msgs)
  show ?case
  proof (cases "well_formed m")
    case True
    with Cons show ?thesis by (simp add: message_line_ok)
  next
    case False
    from message_line_fail [OF this, of f] show ?thesis by auto
  qed
qed

lemma strip_append_space:
  assumes "is_space c"
  shows "strip (s @ [c]) = strip s"
proof (cases "\<forall>x\<in>set s. is_space x")
  case True
  with assms have "dropWhile is_space s = []" and "dropWhile is_space (s @ [c]) = []"
    by (simp_all add: dropWhile_eq_Nil_conv)
  then show ?thesis
    unfolding strip_def lstrip_def rstrip_def by (simp only:)
next
  case False
  then have "dropWhile is_space (s @ [c]) = dropWhile is_space s @ [c]"
    by (auto simp: dropWhile_append1)
  with assms show ?thesis by (simp add: strip_def lstrip_def rstrip_def)
qed

lemma concat_lines:
  "ls \<noteq> [] \<Longrightarrow> concat (map (\<lambda>l. l @ sep) ls) = join sep ls @ sep"
  by (induction sep ls rule: join.induct) auto

lemma strip_lines:
  "strip (concat (map (\<lambda>l. l @ [CHR 10]) ls)) = strip (join [CHR 10] ls)"
proof (cases ls)
  case Nil
  then show ?thesis by simp
next
  case (Cons a list)
  then have "ls \<noteq> []" by simp
  then have "concat (map (\<lambda>l. l @ [CHR 10]) ls) = join [CHR 10] ls @ [CHR 10]"
    by (rule concat_lines)
  then show ?thesis by (simp add: strip_append_space is_space_def)
qed

lemma convert_ok:
  assumes "list_all well_formed msgs"
  shows "convert_messages_to_prompt f msgs = Inr (compiled_prompt f msgs)"
proof -
  from strip_lines [of "map (prompt_line f) msgs"]
  have "strip (concat (map (\<lambda>m. prompt_line f m @ [CHR 10]) msgs))
      = strip (join [CHR 10] (map (prompt_line f) msgs))"
    by (simp add: comp_def)
  then show ?thesis
    by (simp add: convert_messages_to_prompt_def compiled_prompt_def compile_loop_ok [OF assms])
qed

lemma upper_user: "upper ''user'' = ''USER''"
  by code_simp

lemma convert_fail:
  assumes "\<not> list_all well_formed msgs"
  shows "\<exists>e. convert_messages_to_prompt f msgs = Inl e"
  using compile_loop_fail [OF assms, of f "[]"]
  by (auto simp: convert_messages_to_prompt_def)

text \<open>
  Claim C8. For messages the compiler accepts, with roles whose upper-case form lies in
  the code points 0 to 255, the prompt is the one the specification words: each message
  gives the line \<open>ROLE: content\<close>, with the role in upper case and \<open>user\<close> for a
  missing role; a string content stands as it is and a sequence content is the
  newline-join of the texts of the fragments that carry one, the others skipped; the
  lines are joined by newlines and the result is trimmed. The two examples of the
  specification come out as it says.
\<close>

theorem prompt_compiler_lines:
  "(list_all well_formed msgs \<and> list_all (\<lambda>m. upper_in_range (message_role m)) msgs \<longrightarrow>
      convert_messages_to_prompt fmt msgs = Inr (compiled_prompt fmt msgs))
   \<and> convert_messages_to_prompt fmt
        [JObj [(''role'', JStr ''user''), (''content'', JStr ''hi'')],
         JObj [(''role'', JStr ''assistant''), (''content'', JStr ''yo'')]]
       = Inr (''USER: hi'' @ [CHR 10] @ ''ASSISTANT: yo'')
   \<and> convert_messages_to_prompt fmt
        [JObj [(''role'', JStr ''user''),
               (''content'', JList [JObj [(''text'', JStr ''a'')],
                                    JObj [(''other'', JStr ''x'')],
                                    JObj [(''text'', JStr ''b'')]])]]
       = Inr (''USER: a'' @ [CHR 10] @ ''b'')"
proof (intro conjI impI)
  assume "list_all well_formed msgs \<and> list_all (\<lambda>m. upper_in_range (message_role m)) msgs"
  then have "list_all well_formed msgs" by simp
  then show "convert_messages_to_prompt fmt msgs = Inr (compiled_prompt fmt msgs)"
    by (rule convert_ok)
next
  show "convert_messages_to_prompt fmt
        [JObj [(''role'', JStr ''user''), (''content'', JStr ''hi'')],
         JObj [(''role'', JStr ''assistant''), (''content'', JStr ''yo'')]]
       = Inr (''USER: hi'' @ [CHR 10] @ ''ASSISTANT: yo'')"
    by code_simp
next
  show "convert_messages_to_prompt fmt
        [JObj [(''role'', JStr ''user''),
               (''content'', JList [JObj [(''text'', JStr ''a'')],
                                    JObj [(''other'', JStr ''x'')],
                                    JObj [(''text'', JStr ''b'')]])]]
       = Inr (''USER: a'' @ [CHR 10] @ ''b'')"
    by code_simp
qed

text \<open>
  The theorem at work: a message without a role whose content is a sequence, a message
  with a trailing space, and a role with a Latin-1 letter (233, e with acute, whose
  upper-case form is 201).
\<close>

theorem prompt_compiler_lines_witness:
  "convert_messages_to_prompt (\<lambda>v. ''?'')
     [JObj [(''content'', JList [JObj [(''text'', JStr ''a '')], JInt 3,
                                 JObj [(''text'', JStr ''b'')]])],
      JObj [(''role'', JStr [CHR 0xE9, CHR ''l'']), (''content'', JStr ''x'')],
      JObj [(''role'', JStr ''System''), (''content'', JStr ''be brief '')]]
   = Inr (''USER: a '' @ [CHR 10] @ ''b'' @ [CHR 10]
          @ [CHR 0xC9, CHR ''L''] @ '': x'' @ [CHR 10] @ ''SYSTEM: be brief'')"
proof -
  let ?msgs = "[JObj [(''content'', JList [JObj [(''text'', JStr ''a '')], JInt 3,
                                 JObj [(''text'', JStr ''b'')]])],
      JObj [(''role'', JStr [CHR 0xE9, CHR ''l'']), (''content'', JStr ''x'')],
      JObj [(''role'', JStr ''System''), (''content'', JStr ''be brief '')]]"
  have wf: "list_all well_formed ?msgs \<and> list_all (\<lambda>m. upper_in_range (message_role m)) ?msgs"
    by code_simp
  have v: "compiled_prompt (\<lambda>v. ''?'') ?msgs
      = ''USER: a '' @ [CHR 10] @ ''b'' @ [CHR 10]
          @ [CHR 0xC9, CHR ''L''] @ '': x'' @ [CHR 10] @ ''SYSTEM: be brief''"
    by code_simp
  from prompt_compiler_lines [of ?msgs "\<lambda>v. ''?''"] wf
  have "convert_messages_to_prompt (\<lambda>v. ''?'') ?msgs = Inr (compiled_prompt (\<lambda>v. ''?'') ?msgs)"
    by blast
  then show ?thesis by (simp only: v)
qed

text \<open>
  Claim C9, amended. The compiler returns a prompt exactly for the messages it accepts:
  objects whose role, when present, is a string, and whose sequence content holds no
  fragment with a text that is not a string. A content that is neither a string nor a
  sequence is passed through as Python prints it. On any other list of messages the
  compiler raises an exception.
\<close>

theorem prompt_compiler_domain:
  "((\<exists>p. convert_messages_to_prompt fmt msgs = Inr p) \<longleftrightarrow> list_all well_formed msgs)
   \<and> ((\<forall>items. v \<noteq> JList items) \<longrightarrow>
        convert_messages_to_prompt fmt [JObj [(''content'', v)]]
          = Inr (strip (''USER: '' @ py_format fmt v)))
   \<and> (\<not> list_all well_formed msgs \<longrightarrow> (\<exists>e. convert_messages_to_prompt fmt msgs = Inl e))"
proof (intro conjI impI)
  show "(\<exists>p. convert_messages_to_prompt fmt msgs = Inr p) \<longleftrightarrow> list_all well_formed msgs"
  proof (cases "list_all well_formed msgs")
    case True
    then show ?thesis by (simp add: convert_ok)
  next
    case False
    from convert_fail [OF this, of fmt]
    obtain e where "convert_messages_to_prompt fmt msgs = Inl e" by blast
    with False show ?thesis by simp
  qed
next
  assume v: "\<forall>items. v \<noteq> JList items"
  then have "join_content v = Inr v" by (cases v) auto
  then have "message_line fmt (JObj [(''content'', v)])
      = Inr (''USER: '' @ py_format fmt v @ [CHR 10])"
    by (simp add: message_line_def upper_user)
  then have "convert_messages_to_prompt fmt [JObj [(''content'', v)]]
      = Inr (strip ((''USER: '' @ py_format fmt v) @ [CHR 10]))"
    by (simp add: convert_messages_to_prompt_def)
  moreover have "strip ((''USER: '' @ py_format fmt v) @ [CHR 10]) = strip (''USER: '' @ py_format fmt v)"
    by (rule strip_append_space) (simp add: is_space_def)
  ultimately show "convert_messages_to_prompt fmt [JObj [(''content'', v)]]
          = Inr (strip (''USER: '' @ py_format fmt v))"
    by (simp only:)
next
  assume "\<not> list_all well_formed msgs"
  then show "\<exists>e. convert_messages_to_prompt fmt msgs = Inl e"
    by (rule convert_fail)
qed

text \<open>
  Claim C9 as stated fails: a message that is no object, a role that is no string and a
  fragment text that is no string each make the compiler raise.
\<close>

theorem prompt_compiler_domain_counterexample:
  "convert_messages_to_prompt (\<lambda>v. ''?'') [JInt 5] = Inl AttributeError
   \<and> convert_messages_to_prompt (\<lambda>v. ''?'') [JObj [(''role'', JNull), (''content'', JStr ''hi'')]]
       = Inl AttributeError
   \<and> convert_messages_to_prompt (\<lambda>v. ''?'')
        [JObj [(''role'', JStr ''user''), (''content'', JList [JObj [(''text'', JInt 1)]])]]
       = Inl TypeError"
  by code_simp

text \<open>
  The amended claim at work: a numeric content is passed through, a message that is a
  string is rejected.
\<close>

theorem prompt_compiler_domain_witness:
  "(\<exists>p. convert_messages_to_prompt (\<lambda>v. ''5'') [JObj [(''content'', JInt 5)]] = Inr p)
   \<and> convert_messages_to_prompt (\<lambda>v. ''5'') [JObj [(''content'', JInt 5)]] = Inr ''USER: 5''
   \<and> (\<exists>e. convert_messages_to_prompt (\<lambda>v. ''5'') [JStr ''hi''] = Inl e)"
proof -
  have wf: "list_all well_formed [JObj [(''content'', JInt 5)]]" by code_simp
  have nwf: "\<not> list_all well_formed [JStr ''hi'']" by code_simp
  have nl: "\<forall>items. JInt 5 \<noteq> JList items" by simp
  have s: "strip (''USER: '' @ py_format (\<lambda>v. ''5'') (JInt 5)) = ''USER: 5''" by code_simp
  from prompt_compiler_domain [of "\<lambda>v. ''5''" "[JObj [(''content'', JInt 5)]]" "JInt 5"] wf
  have 1: "\<exists>p. convert_messages_to_prompt (\<lambda>v. ''5'') [JObj [(''content'', JInt 5)]] = Inr p"
    by blast
  from prompt_compiler_domain [of "\<lambda>v. ''5''" "[JObj [(''content'', JInt 5)]]" "JInt 5"] nl
  have "convert_messages_to_prompt (\<lambda>v. ''5'') [JObj [(''content'', JInt 5)]]
      = Inr (strip (''USER: '' @ py_format (\<lambda>v. ''5'') (JInt 5)))"
    by blast
  then have 2: "convert_messages_to_prompt (\<lambda>v. ''5'') [JObj [(''content'', JInt 5)]] = Inr ''USER: 5''"
    by (simp only: s)
  from prompt_compiler_domain [of "\<lambda>v. ''5''" "[JStr ''hi'']" "JInt 5"] nwf
  have 3: "\<exists>e. convert_messages_to_prompt (\<lambda>v. ''5'') [JStr ''hi''] = Inl e"
    by blast
  from 1 2 3 show ?thesis by blast
qed

section \<open>The response cleaner\<close>

lemma sub_marker_no_marker:
  "\<not> has_marker s \<Longrightarrow> sub_marker s = s"
  by (induction s) auto

lemma sub_prefix_no_alternative:
  "match_alternatives PREFIX_ALTERNATIVES s = None \<Longrightarrow> sub_prefix s = s"
  by (simp add: sub_prefix_def)

lemma clean_fixed_point:
  "strip y = y \<Longrightarrow> \<not> has_marker y \<Longrightarrow> match_alternatives PREFIX_ALTERNATIVES y = None \<Longrightarrow>
   clean_lm_response y = y"
  by (simp add: clean_lm_response_def sub_marker_no_marker sub_prefix_no_alternative)

lemma match_literal_append:
  "match_literal p m = Some r \<Longrightarrow> match_literal p (m @ b) = Some (r @ b)"
  by (induction p m rule: match_literal.induct) (auto split: if_splits)

lemma match_literal_extend_None:
  "match_literal ps ds = None \<Longrightarrow> \<forall>q\<in>set ps. lower_char q \<noteq> lower_char c \<Longrightarrow>
   match_literal ps (ds @ c # t) = None"
  by (induction ps ds rule: match_literal.induct) (auto split: if_splits)

lemma marker_first:
  assumes "match_literal MARKER m = Some r"
  obtains c t where "m = c # t" and "lower_char c = CHR ''<''"
proof (cases m)
  case Nil
  with assms show ?thesis by (simp add: MARKER_def)
next
  case (Cons c t)
  with assms have "lower_char CHR ''<'' = lower_char c"
    by (auto simp: MARKER_def split: if_splits)
  moreover have "lower_char CHR ''<'' = CHR ''<''" by code_simp
  ultimately show ?thesis using Cons that by simp
qed

lemma marker_tail: "\<forall>q\<in>set (tl MARKER). lower_char q \<noteq> CHR ''<''"
  by code_simp

lemma no_marker_across:
  assumes "match_literal MARKER (x # a) = None" and "match_literal MARKER m = Some r"
  shows "match_literal MARKER (x # a @ m @ b) = None"
proof -
  from assms(2) obtain c t where m: "m = c # t" and c: "lower_char c = CHR ''<''"
    by (rule marker_first)
  obtain q ps where M: "MARKER = q # ps" by (simp add: MARKER_def)
  then have "tl MARKER = ps" by (metis list.sel(3))
  with marker_tail c have tail: "\<forall>q\<in>set ps. lower_char q \<noteq> lower_char c" by metis
  show ?thesis
  proof (cases "lower_char q = lower_char x")
    case False
    then have "match_literal (q # ps) (x # a @ m @ b) = None" by simp
    then show ?thesis by (simp only: M)
  next
    case True
    from assms(1) have "match_literal (q # ps) (x # a) = None" by (simp only: M)
    with True have "match_literal ps a = None" by simp
    from match_literal_extend_None [OF this tail, of "t @ b"] True
    have "match_literal (q # ps) (x # a @ m @ b) = None" by (simp add: m)
    then show ?thesis by (simp only: M)
  qed
qed

lemma sub_marker_removes:
  assumes "\<not> has_marker a" and "match_literal MARKER m = Some []"
  shows "sub_marker (a @ m @ b) = a @ sub_marker (dropWhile is_space b)"
  using assms(1)
proof (induction a)
  case Nil
  from assms(2) obtain c t where m: "m = c # t" by (rule marker_first)
  from match_literal_append [OF assms(2), of b] have "match_literal MARKER (m @ b) = Some b"
    by simp
  with m show ?case by simp
next
  case (Cons x a)
  then have "match_literal MARKER (x # a) = None" and "\<not> has_marker a" by simp_all
  with no_marker_across [OF _ assms(2), of x a b] Cons.IH show ?case by simp
qed

lemma match_alternatives_append:
  "match_alternatives (ps @ qs) s =
     (case match_alternatives ps s of Some r \<Rightarrow> Some r | None \<Rightarrow> match_alternatives qs s)"
  by (induction ps) (auto split: option.splits)

lemma labels_are_alternatives:
  "match_alternatives LABELS s = Some r \<Longrightarrow> match_alternatives PREFIX_ALTERNATIVES s = Some r"
proof -
  have eq: "PREFIX_ALTERNATIVES = LABELS @ [''<'', ''im_start'', ''>'']"
    by (simp add: PREFIX_ALTERNATIVES_def LABELS_def)
  assume "match_alternatives LABELS s = Some r"
  then show ?thesis
    by (subst eq) (simp add: match_alternatives_append)
qed

lemma label_run_skipped:
  "label_run s rest \<Longrightarrow> match_alternatives PREFIX_ALTERNATIVES rest = None \<Longrightarrow>
   \<exists>r. match_alternatives PREFIX_ALTERNATIVES s = Some r \<and> skip_alternatives r = rest"
proof (induction rule: label_run.induct)
  case (one s rest)
  then show ?case
    by (auto dest: labels_are_alternatives simp: skip_alternatives.simps [of rest])
next
  case (more s r rest)
  then obtain r' where "match_alternatives PREFIX_ALTERNATIVES r = Some r'"
    and "skip_alternatives r' = rest" by blast
  then have "skip_alternatives r = rest"
    by (simp add: skip_alternatives.simps [of r])
  with more.hyps(1) show ?case
    by (auto dest: labels_are_alternatives)
qed

lemma sub_prefix_label_run:
  "label_run s rest \<Longrightarrow> match_alternatives PREFIX_ALTERNATIVES rest = None \<Longrightarrow>
   sub_prefix s = dropWhile is_space rest"
  by (auto dest!: label_run_skipped simp: sub_prefix_def)

text \<open>
  Claim C3, amended. The cleaner trims the text, then makes the first substitution, then
  the second. The first substitution scans the text from left to right and removes the
  marker wherever it finds it, in any case of its letters and with the whitespace after
  it: in the middle of the text as well. A text without the marker passes the first
  substitution unchanged. When the text starts with a run of one or more labels
  (\<open>ASSISTANT###\<close>, \<open>ASSISTANT:\<close>, in any case of their letters) and what follows
  the run starts with none of the five alternatives of the second pattern (a label,
  \<open><\<close>, \<open>im_start\<close>, \<open>>\<close>), the second substitution removes the run together with
  the whitespace after it. A text that, once trimmed, holds no marker and starts with
  none of the five alternatives is returned trimmed and otherwise unchanged. On
  \<open><|im_start|>Assistant### Hello\<close> the cleaner returns \<open>Hello\<close>.
\<close>

theorem cleaner_steps:
  "clean_lm_response x = sub_prefix (sub_marker (strip x))
   \<and> (\<not> has_marker a \<and> match_literal MARKER m = Some [] \<longrightarrow>
        sub_marker (a @ m @ b) = a @ sub_marker (dropWhile is_space b))
   \<and> (\<not> has_marker s \<longrightarrow> sub_marker s = s)
   \<and> (label_run s rest \<and> match_alternatives PREFIX_ALTERNATIVES rest = None \<longrightarrow>
        sub_prefix s = dropWhile is_space rest)
   \<and> (\<not> has_marker (strip x) \<and> match_alternatives PREFIX_ALTERNATIVES (strip x) = None \<longrightarrow>
        clean_lm_response x = strip x)
   \<and> clean_lm_response ''<|im_start|>Assistant### Hello'' = ''Hello''"
proof (intro conjI impI)
  show "clean_lm_response x = sub_prefix (sub_marker (strip x))"
    by (simp add: clean_lm_response_def)
next
  assume "\<not> has_marker a \<and> match_literal MARKER m = Some []"
  then show "sub_marker (a @ m @ b) = a @ sub_marker (dropWhile is_space b)"
    by (simp add: sub_marker_removes)
next
  assume "\<not> has_marker s"
  then show "sub_marker s = s" by (rule sub_marker_no_marker)
next
  assume "label_run s rest \<and> match_alternatives PREFIX_ALTERNATIVES rest = None"
  then show "sub_prefix s = dropWhile is_space rest"
    by (simp add: sub_prefix_label_run)
next
  assume "\<not> has_marker (strip x) \<and> match_alternatives PREFIX_ALTERNATIVES (strip x) = None"
  then show "clean_lm_response x = strip x"
    by (simp add: clean_lm_response_def sub_marker_no_marker sub_prefix_no_alternative)
next
  show "clean_lm_response ''<|im_start|>Assistant### Hello'' = ''Hello''"
    by code_simp
qed

text \<open>
  Claim C3 as stated fails: a marker in the middle of a text that starts with no marker
  and no label is removed, and a run of two labels is removed whole.
\<close>

theorem cleaner_steps_counterexample:
  "strip ''a<|im_start|>Assistant###b'' = ''a<|im_start|>Assistant###b''
   \<and> match_literal MARKER ''a<|im_start|>Assistant###b'' = None
   \<and> match_alternatives PREFIX_ALTERNATIVES ''a<|im_start|>Assistant###b'' = None
   \<and> clean_lm_response ''a<|im_start|>Assistant###b'' = ''ab''
   \<and> clean_lm_response ''ASSISTANT:assistant### hi'' = ''hi''"
  by code_simp

text \<open>
  The amended claim at work.
\<close>

theorem cleaner_steps_witness:
  "sub_marker (''Hi '' @ ''<|IM_START|>assistant###'' @ '' there'') = ''Hi there''
   \<and> sub_prefix ''ASSISTANT:assistant###  hi'' = ''hi''
   \<and> clean_lm_response ''  plain text '' = ''plain text''"
proof -
  have 1: "\<not> has_marker ''Hi '' \<and> match_literal MARKER ''<|IM_START|>assistant###'' = Some []"
    by code_simp
  have 2: "\<not> has_marker ''there''" by code_simp
  have l1: "match_alternatives LABELS ''ASSISTANT:assistant###  hi'' = Some ''assistant###  hi''"
    by code_simp
  have l2: "match_alternatives LABELS ''assistant###  hi'' = Some ''  hi''"
    by code_simp
  have 3: "label_run ''ASSISTANT:assistant###  hi'' ''  hi''
     \<and> match_alternatives PREFIX_ALTERNATIVES ''  hi'' = None"
  proof
    show "label_run ''ASSISTANT:assistant###  hi'' ''  hi''"
      by (rule label_run.more [OF l1]) (rule label_run.one [OF l2])
    show "match_alternatives PREFIX_ALTERNATIVES ''  hi'' = None" by code_simp
  qed
  have 4: "\<not> has_marker (strip ''  plain text '')
     \<and> match_alternatives PREFIX_ALTERNATIVES (strip ''  plain text '') = None"
    by code_simp
  have d: "dropWhile is_space '' there'' = ''there''" "dropWhile is_space ''  hi'' = ''hi''"
    "strip ''  plain text '' = ''plain text''"
    by code_simp+
  note T = cleaner_steps [of "''  plain text ''" "''Hi ''" "''<|IM_START|>assistant###''" "'' there''"
       "''ASSISTANT:assistant###  hi''" "''  hi''"]
  note T' = cleaner_steps [of "''  plain text ''" "''Hi ''" "''<|IM_START|>assistant###''" "'' there''"
       "''there''" "''  hi''"]
  from T 1 have a: "sub_marker (''Hi '' @ ''<|IM_START|>assistant###'' @ '' there'')
      = ''Hi '' @ sub_marker (dropWhile is_space '' there'')" by blast
  from T' 2 have b: "sub_marker ''there'' = ''there''" by blast
  from T 3 have c: "sub_prefix ''ASSISTANT:assistant###  hi'' = dropWhile is_space ''  hi''"
    by blast
  from T 4 have e: "clean_lm_response ''  plain text '' = strip ''  plain text ''"
    by blast
  have A: "sub_marker (''Hi '' @ ''<|IM_START|>assistant###'' @ '' there'') = ''Hi there''"
    by (simp only: a) (simp only: d b append_Cons append_Nil)
  have B: "sub_prefix ''ASSISTANT:assistant###  hi'' = ''hi''"
    by (simp only: c d)
  have C: "clean_lm_response ''  plain text '' = ''plain text''"
    by (simp only: e d)
  from A B C show ?thesis by blast
qed

lemma match_literal_length:
  "match_literal p s = Some r \<Longrightarrow> length s = length p + length r"
  by (induction p s rule: match_literal.induct) (auto split: if_splits)

lemma match_alternatives_shorter:
  "match_alternatives ps s = Some r \<Longrightarrow> \<forall>p \<in> set ps. p \<noteq> [] \<Longrightarrow> length r < length s"
proof (induction ps)
  case Nil
  then show ?case by simp
next
  case (Cons p ps)
  show ?case
  proof (cases "match_literal p s")
    case None
    with Cons show ?thesis by simp
  next
    case (Some rest)
    with Cons.prems have "r = rest" and "p \<noteq> []" by simp_all
    with Some show ?thesis by (auto dest: match_literal_length)
  qed
qed

lemma prefix_alternative_shorter:
  assumes "match_alternatives PREFIX_ALTERNATIVES s = Some r"
  shows "length r < length s"
  using match_alternatives_shorter [OF assms] by (simp add: PREFIX_ALTERNATIVES_def)

lemma dropWhile_same_length:
  assumes "length (dropWhile P s) = length s"
  shows "dropWhile P s = s"
proof -
  have "length (takeWhile P s) + length (dropWhile P s) = length s"
    by (metis length_append takeWhile_dropWhile_id)
  with assms have "takeWhile P s = []" by simp
  then show ?thesis by (metis append_Nil takeWhile_dropWhile_id)
qed

lemma length_strip: "length (strip s) \<le> length s"
proof -
  have "length (strip s) \<le> length (dropWhile is_space s)"
    using length_dropWhile_le [of is_space "rev (dropWhile is_space s)"]
    by (simp add: strip_def lstrip_def rstrip_def)
  also have "\<dots> \<le> length s" by (rule length_dropWhile_le)
  finally show ?thesis .
qed

lemma strip_same_length:
  assumes "length (strip s) = length s"
  shows "strip s = s"
proof -
  have 1: "length (strip s) \<le> length (dropWhile is_space s)"
    using length_dropWhile_le [of is_space "rev (dropWhile is_space s)"]
    by (simp add: strip_def lstrip_def rstrip_def)
  have 2: "length (dropWhile is_space s) \<le> length s" by (rule length_dropWhile_le)
  from assms 1 2 have "length (dropWhile is_space s) = length s" by simp
  then have l: "dropWhile is_space s = s" by (rule dropWhile_same_length)
  with assms have "length (dropWhile is_space (rev s)) = length (rev s)"
    by (simp add: strip_def lstrip_def rstrip_def)
  then have "dropWhile is_space (rev s) = rev s" by (rule dropWhile_same_length)
  with l show ?thesis by (simp add: strip_def lstrip_def rstrip_def)
qed

lemma length_sub_marker: "length (sub_marker s) \<le> length s"
proof (induction s rule: sub_marker.induct)
  case 1
  then show ?case by simp
next
  case (2 c cs)
  show ?case
  proof (cases "match_literal MARKER (c # cs)")
    case None
    with 2 show ?thesis by simp
  next
    case (Some rest)
    with 2 have "length (sub_marker (dropWhile is_space rest)) \<le> length (dropWhile is_space rest)"
      by simp
    also have "\<dots> \<le> length rest" by (rule length_dropWhile_le)
    also have "\<dots> \<le> length (c # cs)"
      using match_literal_length [OF Some] by simp
    finally show ?thesis using Some by simp
  qed
qed

lemma sub_marker_shorter:
  "has_marker s \<Longrightarrow> length (sub_marker s) < length s"
proof (induction s)
  case Nil
  then show ?case by simp
next
  case (Cons c cs)
  show ?case
  proof (cases "match_literal MARKER (c # cs)")
    case None
    with Cons show ?thesis by simp
  next
    case (Some rest)
    have "length (sub_marker (dropWhile is_space rest)) \<le> length (dropWhile is_space rest)"
      by (rule length_sub_marker)
    also have "\<dots> \<le> length rest" by (rule length_dropWhile_le)
    also have "\<dots> < length (c # cs)"
      using match_literal_length [OF Some] by (simp add: MARKER_def)
    finally show ?thesis using Some by simp
  qed
qed

lemma length_skip_alternatives: "length (skip_alternatives s) \<le> length s"
proof (induction s rule: skip_alternatives.induct)
  case (1 s)
  show ?case
  proof (cases "match_alternatives PREFIX_ALTERNATIVES s")
    case None
    then show ?thesis by (simp add: skip_alternatives.simps [of s])
  next
    case (Some rest)
    with 1 have "length (skip_alternatives rest) \<le> length rest" by simp
    with Some prefix_alternative_shorter [OF Some] show ?thesis
      by (simp add: skip_alternatives.simps [of s])
  qed
qed

lemma length_sub_prefix: "length (sub_prefix s) \<le> length s"
proof (cases "match_alternatives PREFIX_ALTERNATIVES s")
  case None
  then show ?thesis by (simp add: sub_prefix_def)
next
  case (Some rest)
  have "length (dropWhile is_space (skip_alternatives rest)) \<le> length (skip_alternatives rest)"
    by (rule length_dropWhile_le)
  also have "\<dots> \<le> length rest" by (rule length_skip_alternatives)
  also have "\<dots> \<le> length s" using prefix_alternative_shorter [OF Some] by simp
  finally show ?thesis using Some by (simp add: sub_prefix_def)
qed

lemma sub_prefix_shorter:
  assumes "match_alternatives PREFIX_ALTERNATIVES s = Some rest"
  shows "length (sub_prefix s) < length s"
proof -
  have "length (dropWhile is_space (skip_alternatives rest)) \<le> length (skip_alternatives rest)"
    by (rule length_dropWhile_le)
  also have "\<dots> \<le> length rest" by (rule length_skip_alternatives)
  also have "\<dots> < length s" by (rule prefix_alternative_shorter [OF assms])
  finally show ?thesis using assms by (simp add: sub_prefix_def)
qed

lemma clean_fixed_point_only:
  assumes "clean_lm_response y = y"
  shows "strip y = y \<and> \<not> has_marker y \<and> match_alternatives PREFIX_ALTERNATIVES y = None"
proof -
  have a: "length (sub_prefix (sub_marker (strip y))) \<le> length (sub_marker (strip y))"
    by (rule length_sub_prefix)
  have b: "length (sub_marker (strip y)) \<le> length (strip y)" by (rule length_sub_marker)
  have c: "length (strip y) \<le> length y" by (rule length_strip)
  from assms have d: "length (sub_prefix (sub_marker (strip y))) = length y"
    by (simp add: clean_lm_response_def)
  from a b c d have "length (strip y) = length y" by simp
  then have s: "strip y = y" by (rule strip_same_length)
  from a b c d s have m: "length (sub_marker y) = length y" by simp
  then have nm: "\<not> has_marker y" using sub_marker_shorter [of y] by auto
  then have sm: "sub_marker y = y" by (rule sub_marker_no_marker)
  from d s sm have "length (sub_prefix y) = length y" by simp
  then have "match_alternatives PREFIX_ALTERNATIVES y = None"
    using sub_prefix_shorter [of y] by (cases "match_alternatives PREFIX_ALTERNATIVES y") auto
  with s nm show ?thesis by simp
qed

text \<open>
  Claim C1, amended. Cleaning the output of the cleaner again changes nothing exactly
  when that output has no whitespace at either end, holds no marker and starts with
  none of the alternatives of the second pattern.
\<close>

theorem cleaner_fixed_point:
  "clean_lm_response (clean_lm_response x) = clean_lm_response x \<longleftrightarrow>
   strip (clean_lm_response x) = clean_lm_response x
   \<and> \<not> has_marker (clean_lm_response x)
   \<and> match_alternatives PREFIX_ALTERNATIVES (clean_lm_response x) = None"
  using clean_fixed_point [of "clean_lm_response x"]
    clean_fixed_point_only [of "clean_lm_response x"]
  by blast

text \<open>
  Claim C1 as stated fails: the cleaner is not idempotent. A label after a label and a
  space, and the space before a marker at the end of the text, are left by the first
  pass and removed by the second.
\<close>

theorem cleaner_fixed_point_counterexample:
  "clean_lm_response ''ASSISTANT: ASSISTANT: hi'' = ''ASSISTANT: hi''
   \<and> clean_lm_response (clean_lm_response ''ASSISTANT: ASSISTANT: hi'') = ''hi''
   \<and> clean_lm_response ''a <|im_start|>Assistant###'' = ''a ''
   \<and> clean_lm_response (clean_lm_response ''a <|im_start|>Assistant###'') = ''a''"
  by code_simp

text \<open>
  The amended claim at work.
\<close>

theorem cleaner_fixed_point_witness:
  "clean_lm_response ''<|im_start|>Assistant### Hello'' = ''Hello''
   \<and> clean_lm_response (clean_lm_response ''<|im_start|>Assistant### Hello'')
     = clean_lm_response ''<|im_start|>Assistant### Hello''"
proof -
  have c: "clean_lm_response ''<|im_start|>Assistant### Hello'' = ''Hello''"
    by code_simp
  have h: "strip ''Hello'' = ''Hello'' \<and> \<not> has_marker ''Hello''
      \<and> match_alternatives PREFIX_ALTERNATIVES ''Hello'' = None"
    by code_simp
  have "strip (clean_lm_response ''<|im_start|>Assistant### Hello'')
        = clean_lm_response ''<|im_start|>Assistant### Hello''
      \<and> \<not> has_marker (clean_lm_response ''<|im_start|>Assistant### Hello'')
      \<and> match_alternatives PREFIX_ALTERNATIVES
           (clean_lm_response ''<|im_start|>Assistant### Hello'') = None"
    unfolding c by (rule h)
  with cleaner_fixed_point [of "''<|im_start|>Assistant### Hello''"]
  have "clean_lm_response (clean_lm_response ''<|im_start|>Assistant### Hello'')
     = clean_lm_response ''<|im_start|>Assistant### Hello''"
    by blast
  with c show ?thesis by blast
qed

end
